theory Spec2Isabelle
  imports Complex_Main "HOL-Library.AList" "HOL-Library.Log_Nat"
begin

section \<open>The meditation tracker: CSV plan parser, calendar grid, plan merging\<close>

text \<open>
  A shallow embedding of \<^verbatim>\<open>src/App.tsx\<close>. The file holds two revisions of the component;
  the functions modelled here (\<^verbatim>\<open>formatKey\<close>, \<^verbatim>\<open>differenceInDays\<close>, \<^verbatim>\<open>getDefaultDuration\<close>,
  \<^verbatim>\<open>parsePlan\<close>, \<^verbatim>\<open>buildCalendar\<close>) are the same text in both, and \<^verbatim>\<open>combinedPlan\<close> and
  \<^verbatim>\<open>durationText\<close> are taken from the second one.

  What the JavaScript platform contributes is written out as definitions of its own:
  \<^item> a string is a list of code units; \<^typ>\<open>char\<close> covers the code units below 256;
  \<^item> a number is \<open>NaN\<close>, an infinity or a finite binary64 value, held as the rational it
    is; every arithmetic result is rounded to the nearest binary64 value by \<open>fl\<close>
    (negative zero is not told apart from zero);
  \<^item> a valid \<^verbatim>\<open>Date\<close> is its time value, an integer count of milliseconds since the epoch
    (the range limit of 8.64e15 ms is not modelled); an invalid one only arises from
    parsing and is \<open>None\<close>;
  \<^item> a \<^verbatim>\<open>PlanMap\<close> is keyed by date keys; the properties every JavaScript object inherits
    (\<^verbatim>\<open>__proto__\<close>, \<^verbatim>\<open>constructor\<close>, ...) are not modelled;
  \<^item> the local time zone is a parameter \<open>tz\<close>, the minutes local time is ahead of UTC,
    constant over time (no daylight saving);
  \<^item> \<^verbatim>\<open>Date.parse\<close> is a parameter \<open>dateParse\<close> of the parser, since the language standard
    fixes it for ISO strings only; \<open>parseIsoDate\<close> is the instance used on concrete input.
\<close>

subsection \<open>Numbers\<close>

datatype jsnum = NaN | PosInf | NegInf | Fin rat

fun isFinite :: "jsnum \<Rightarrow> bool" where
  "isFinite (Fin x) = True"
| "isFinite NaN = False"
| "isFinite PosInf = False"
| "isFinite NegInf = False"

text \<open>\<^verbatim>\<open>a < b\<close> on numbers: false as soon as one side is \<open>NaN\<close>.\<close>

fun js_lt :: "jsnum \<Rightarrow> jsnum \<Rightarrow> bool" where
  "js_lt (Fin a) (Fin b) = (a < b)"
| "js_lt (Fin a) PosInf = True"
| "js_lt NegInf (Fin b) = True"
| "js_lt NegInf PosInf = True"
| "js_lt a b = False"

definition js_le :: "jsnum \<Rightarrow> jsnum \<Rightarrow> bool" where
  "js_le a b = (js_lt a b \<or> (a = b \<and> a \<noteq> NaN))"

definition js_gt :: "jsnum \<Rightarrow> jsnum \<Rightarrow> bool" where
  "js_gt a b = js_lt b a"

text \<open>\<^verbatim>\<open>Math.round\<close>: the nearest integer, a half rounding up.\<close>

definition round_half_up :: "rat \<Rightarrow> int" where
  "round_half_up x = \<lfloor>x + 1 / 2\<rfloor>"

fun Math_round :: "jsnum \<Rightarrow> jsnum" where
  "Math_round (Fin x) = Fin (of_int (round_half_up x))"
| "Math_round NaN = NaN"
| "Math_round PosInf = PosInf"
| "Math_round NegInf = NegInf"

text \<open>Rounding to binary64, to nearest with ties to even. \<open>exponentOf x\<close> is the \<open>e\<close> with
  \<open>2 ^ e \<le> x < 2 ^ (e + 1)\<close> for a positive \<open>x\<close>; below \<open>2 ^ - 1022\<close> the numbers are
  subnormal and share the spacing \<open>2 ^ - 1074\<close>.\<close>

definition pow2 :: "int \<Rightarrow> rat" where
  "pow2 e = (if 0 \<le> e then of_int (2 ^ nat e) else 1 / of_int (2 ^ nat (- e)))"

definition exponentOf :: "rat \<Rightarrow> int" where
  "exponentOf x =
     (case quotient_of x of (p, q) \<Rightarrow>
        let k = bitlen p - bitlen q in if pow2 k \<le> x then k else k - 1)"

definition roundTiesToEven :: "rat \<Rightarrow> int" where
  "roundTiesToEven x =
     (let f = \<lfloor>x\<rfloor>; d = x - of_int f
      in if d < 1 / 2 then f else if 1 / 2 < d then f + 1 else if even f then f else f + 1)"

definition fl :: "rat \<Rightarrow> rat" where
  "fl x =
     (if x = 0 then 0
      else
        let a = \<bar>x\<bar>;
            e = max (exponentOf a) (- 1022);
            ulp = pow2 (e - 52);
            y = of_int (roundTiesToEven (a / ulp)) * ulp
        in if 0 < x then y else - y)"

text \<open>The number for a real value: rounded, and infinite when that reaches \<open>2 ^ 1024\<close>.\<close>

definition binary64 :: "rat \<Rightarrow> jsnum" where
  "binary64 x =
     (let y = fl x
      in if y = 0 then Fin 0
         else if 1024 \<le> exponentOf \<bar>y\<bar> then (if 0 < y then PosInf else NegInf)
         else Fin y)"





subsection \<open>Strings\<close>

definition dquote :: char where
  "dquote = CHR 0x22"

definition LF :: char where
  "LF = CHR 0x0A"

definition CR :: char where
  "CR = CHR 0x0D"

text \<open>The white space and line terminators that \<^verbatim>\<open>trim\<close> and \<^verbatim>\<open>parseFloat\<close> skip
  (tab, line feed, vertical tab, form feed, carriage return, space, no-break space).\<close>

definition isWhiteSpace :: "char \<Rightarrow> bool" where
  "isWhiteSpace c =
     (c = CHR 0x09 \<or> c = CHR 0x0A \<or> c = CHR 0x0B \<or> c = CHR 0x0C \<or> c = CHR 0x0D \<or>
      c = CHR 0x20 \<or> c = CHR 0xA0)"

definition trim :: "string \<Rightarrow> string" where
  "trim s = rev (dropWhile isWhiteSpace (rev (dropWhile isWhiteSpace s)))"

definition isDigit :: "char \<Rightarrow> bool" where
  "isDigit c = (48 \<le> (of_char c :: nat) \<and> (of_char c :: nat) \<le> 57)"

definition digitVal :: "char \<Rightarrow> nat" where
  "digitVal c = of_char c - 48"

definition digitsVal :: "string \<Rightarrow> nat" where
  "digitsVal s = foldl (\<lambda>a c. 10 * a + digitVal c) 0 s"

definition digitChar :: "nat \<Rightarrow> char" where
  "digitChar d = char_of (48 + d)"

text \<open>Decimal digits of a natural number, as \<^verbatim>\<open>String(n)\<close> prints a non-negative integer.\<close>

fun showNat :: "nat \<Rightarrow> string" where
  "showNat n = (if n < 10 then [digitChar n] else showNat (n div 10) @ [digitChar (n mod 10)])"

declare showNat.simps [simp del]

text \<open>\<^verbatim>\<open>String.padStart(w, "0")\<close> on the digits of a natural number.\<close>

definition padNat :: "nat \<Rightarrow> nat \<Rightarrow> string" where
  "padNat w n = replicate (w - length (showNat n)) (CHR ''0'') @ showNat n"

text \<open>\<^verbatim>\<open>raw.split(/\r?\n/)\<close>: a line ends at a line feed, which takes a carriage return
  right before it along; a carriage return alone ends nothing.\<close>

fun splitLines :: "string \<Rightarrow> string \<Rightarrow> string list" where
  "splitLines [] current = [current]"
| "splitLines [c] current = (if c = LF then [current, []] else [current @ [c]])"
| "splitLines (c # d # rest) current =
     (if c = LF then current # splitLines (d # rest) []
      else if c = CR \<and> d = LF then current # splitLines rest []
      else splitLines (d # rest) (current @ [c]))"

text \<open>The canonical form a case-insensitive regular expression compares: within the
  code units below 256 only the ASCII letters are mapped onto other ASCII characters.\<close>

definition canonicalize :: "char \<Rightarrow> char" where
  "canonicalize c =
     (let n = (of_char c :: nat) in if 97 \<le> n \<and> n \<le> 122 then char_of (n - 32) else c)"

definition matchesAt :: "string \<Rightarrow> string \<Rightarrow> bool" where
  "matchesAt pat s =
     (length pat \<le> length s \<and> map canonicalize (take (length pat) s) = map canonicalize pat)"

text \<open>\<^verbatim>\<open>/pat/i.test(s)\<close> for a pattern of plain letters: \<open>pat\<close> occurs somewhere in \<open>s\<close>,
  letter case ignored.\<close>

fun regexTestCI :: "string \<Rightarrow> string \<Rightarrow> bool" where
  "regexTestCI pat [] = matchesAt pat []"
| "regexTestCI pat (c # cs) = (matchesAt pat (c # cs) \<or> regexTestCI pat cs)"

text \<open>\<^verbatim>\<open>cell.replace(/^"|"$/g, '')\<close>: a quote at the very start is removed, and a quote at
  the very end is removed; the two alternatives match independently of each other.\<close>

definition stripQuotes :: "string \<Rightarrow> string" where
  "stripQuotes s =
     (let s1 = (case s of [] \<Rightarrow> [] | c # cs \<Rightarrow> if c = dquote then cs else s)
      in if s1 \<noteq> [] \<and> last s1 = dquote then butlast s1 else s1)"

subsection \<open>Calendar arithmetic of the language standard\<close>

definition msPerDay :: int where
  "msPerDay = 86400000"

definition msPerMinute :: int where
  "msPerMinute = 60000"

definition Day :: "int \<Rightarrow> int" where
  "Day t = t div msPerDay"

definition TimeWithinDay :: "int \<Rightarrow> int" where
  "TimeWithinDay t = t mod msPerDay"

definition DaysInYear :: "int \<Rightarrow> int" where
  "DaysInYear y =
     (if y mod 4 \<noteq> 0 then 365 else if y mod 100 \<noteq> 0 then 366
      else if y mod 400 \<noteq> 0 then 365 else 366)"

definition DayFromYear :: "int \<Rightarrow> int" where
  "DayFromYear y =
     365 * (y - 1970) + (y - 1969) div 4 - (y - 1901) div 100 + (y - 1601) div 400"

text \<open>The year a day number falls in, computed in 400-year, 100-year and 4-year cycles
  counted from 1 January 1601 (day \<open>- 134774\<close>). Lemma \<open>YearFromDay_bounds\<close> below shows
  that it is the year the standard asks for: the one with
  \<open>DayFromYear y \<le> n < DayFromYear (y + 1)\<close>.\<close>

definition YearFromDay :: "int \<Rightarrow> int" where
  "YearFromDay n =
     (let n1 = n + 134774;
          era = n1 div 146097;
          doe = n1 mod 146097;
          c = min 3 (doe div 36524);
          doc = doe - 36524 * c;
          q = doc div 1461;
          doq = doc mod 1461;
          yq = min 3 (doq div 365)
      in 1601 + 400 * era + 100 * c + 4 * q + yq)"

definition YearFromTime :: "int \<Rightarrow> int" where
  "YearFromTime t = YearFromDay (Day t)"

definition leapDays :: "int \<Rightarrow> int" where
  "leapDays y = (if DaysInYear y = 366 then 1 else 0)"

definition InLeapYear :: "int \<Rightarrow> int" where
  "InLeapYear t = leapDays (YearFromTime t)"

definition DayWithinYear :: "int \<Rightarrow> int" where
  "DayWithinYear t = Day t - DayFromYear (YearFromTime t)"

text \<open>The standard's table of months: \<open>monthOfDay d l\<close> is the month (0 to 11) of day \<open>d\<close>
  of a year with \<open>l\<close> leap days, \<open>dateOfDay d l\<close> its day of the month.\<close>

definition monthOfDay :: "int \<Rightarrow> int \<Rightarrow> int" where
  "monthOfDay d l =
     (if d < 31 then 0 else if d < 59 + l then 1 else if d < 90 + l then 2
      else if d < 120 + l then 3 else if d < 151 + l then 4 else if d < 181 + l then 5
      else if d < 212 + l then 6 else if d < 243 + l then 7 else if d < 273 + l then 8
      else if d < 304 + l then 9 else if d < 334 + l then 10 else 11)"

definition dateOfDay :: "int \<Rightarrow> int \<Rightarrow> int" where
  "dateOfDay d l =
     (if d < 31 then d + 1 else if d < 59 + l then d - 30 else if d < 90 + l then d - 58 - l
      else if d < 120 + l then d - 89 - l else if d < 151 + l then d - 119 - l
      else if d < 181 + l then d - 150 - l else if d < 212 + l then d - 180 - l
      else if d < 243 + l then d - 211 - l else if d < 273 + l then d - 242 - l
      else if d < 304 + l then d - 272 - l else if d < 334 + l then d - 303 - l
      else d - 333 - l)"

definition MonthFromTime :: "int \<Rightarrow> int" where
  "MonthFromTime t = monthOfDay (DayWithinYear t) (InLeapYear t)"

definition DateFromTime :: "int \<Rightarrow> int" where
  "DateFromTime t = dateOfDay (DayWithinYear t) (InLeapYear t)"


definition HourFromTime :: "int \<Rightarrow> int" where
  "HourFromTime t = (t div 3600000) mod 24"

definition MinFromTime :: "int \<Rightarrow> int" where
  "MinFromTime t = (t div 60000) mod 60"

definition SecFromTime :: "int \<Rightarrow> int" where
  "SecFromTime t = (t div 1000) mod 60"

definition msFromTime :: "int \<Rightarrow> int" where
  "msFromTime t = t mod 1000"

text \<open>The day of the year (from 0) on which month \<open>m\<close> (0 to 11) starts.\<close>

definition monthStart :: "int \<Rightarrow> int \<Rightarrow> int" where
  "monthStart m l =
     (if m = 0 then 0 else if m = 1 then 31 else if m = 2 then 59 + l
      else if m = 3 then 90 + l else if m = 4 then 120 + l else if m = 5 then 151 + l
      else if m = 6 then 181 + l else if m = 7 then 212 + l else if m = 8 then 243 + l
      else if m = 9 then 273 + l else if m = 10 then 304 + l else 334 + l)"

definition DaysInMonth :: "int \<Rightarrow> int \<Rightarrow> int" where
  "DaysInMonth y m =
     (if m = 1 then 28 + leapDays y else if m = 3 \<or> m = 5 \<or> m = 8 \<or> m = 10 then 30 else 31)"

text \<open>\<open>MakeDay\<close>: the day number of a year, month and day of the month; a month outside 0
  to 11 carries into the year, and the day of the month is added as it is, so day 0 is the
  last day of the month before.\<close>

definition MakeDay :: "int \<Rightarrow> int \<Rightarrow> int \<Rightarrow> int" where
  "MakeDay year month date =
     (let ym = year + month div 12; mn = month mod 12
      in DayFromYear ym + monthStart mn (leapDays ym) + date - 1)"

definition MakeTime :: "int \<Rightarrow> int \<Rightarrow> int \<Rightarrow> int \<Rightarrow> int" where
  "MakeTime h m s ms = h * 3600000 + m * 60000 + s * 1000 + ms"

definition MakeDate :: "int \<Rightarrow> int \<Rightarrow> int" where
  "MakeDate day time = day * msPerDay + time"

text \<open>The constructor \<^verbatim>\<open>new Date(y, m, d)\<close> and \<^verbatim>\<open>Date.UTC\<close> read a year from 0 to 99 as
  1900 + y.\<close>

definition MakeFullYear :: "int \<Rightarrow> int" where
  "MakeFullYear y = (if 0 \<le> y \<and> y \<le> 99 then 1900 + y else y)"

subsection \<open>The Date object in a time zone\<close>

definition LocalTime :: "int \<Rightarrow> int \<Rightarrow> int" where
  "LocalTime tz t = t + tz * msPerMinute"

definition UTC :: "int \<Rightarrow> int \<Rightarrow> int" where
  "UTC tz t = t - tz * msPerMinute"

definition getFullYear :: "int \<Rightarrow> int \<Rightarrow> int" where
  "getFullYear tz t = YearFromTime (LocalTime tz t)"

definition getMonth :: "int \<Rightarrow> int \<Rightarrow> int" where
  "getMonth tz t = MonthFromTime (LocalTime tz t)"

definition getDate :: "int \<Rightarrow> int \<Rightarrow> int" where
  "getDate tz t = DateFromTime (LocalTime tz t)"


text \<open>\<^verbatim>\<open>new Date(year, month, date)\<close>: local midnight of that day.\<close>

definition newDate :: "int \<Rightarrow> int \<Rightarrow> int \<Rightarrow> int \<Rightarrow> int" where
  "newDate tz year month date =
     UTC tz (MakeDate (MakeDay (MakeFullYear year) month date) (MakeTime 0 0 0 0))"


text \<open>\<^verbatim>\<open>setHours(0, 0, 0, 0)\<close>: the time of day is replaced in local time.\<close>

definition setHours0 :: "int \<Rightarrow> int \<Rightarrow> int" where
  "setHours0 tz t = UTC tz (MakeDate (Day (LocalTime tz t)) (MakeTime 0 0 0 0))"

text \<open>\<^verbatim>\<open>toISOString\<close> prints the fields of the time value in UTC: a year from 0 to 9999
  with four digits, any other with a sign and six.\<close>

definition isoYear :: "int \<Rightarrow> string" where
  "isoYear y =
     (if 0 \<le> y \<and> y \<le> 9999 then padNat 4 (nat y)
      else if y < 0 then CHR ''-'' # padNat 6 (nat (- y))
      else CHR ''+'' # padNat 6 (nat y))"

definition toISOString :: "int \<Rightarrow> string" where
  "toISOString t =
     isoYear (YearFromTime t) @ ''-'' @ padNat 2 (nat (MonthFromTime t + 1)) @ ''-'' @
     padNat 2 (nat (DateFromTime t)) @ ''T'' @ padNat 2 (nat (HourFromTime t)) @ '':'' @
     padNat 2 (nat (MinFromTime t)) @ '':'' @ padNat 2 (nat (SecFromTime t)) @ ''.'' @
     padNat 3 (nat (msFromTime t)) @ ''Z''"

text \<open>\<^verbatim>\<open>s.split('T')[0]\<close>: what stands before the first \<^verbatim>\<open>T\<close>.\<close>

definition beforeT :: "string \<Rightarrow> string" where
  "beforeT s = takeWhile (\<lambda>c. c \<noteq> CHR ''T'') s"

subsection \<open>formatKey, differenceInDays, getDefaultDuration\<close>

definition formatKey :: "int \<Rightarrow> int \<Rightarrow> string" where
  "formatKey tz date = (let copy = setHours0 tz date in beforeT (toISOString copy))"

text \<open>The key \<^verbatim>\<open>YYYY-MM-DD\<close> that names a calendar day, given by its year, its month (from 0)
  and its day of the month; the statements about \<open>formatKey\<close> compare its result with it.\<close>

definition dateKey :: "int \<Rightarrow> int \<Rightarrow> int \<Rightarrow> string" where
  "dateKey y m d = isoYear y @ ''-'' @ padNat 2 (nat (m + 1)) @ ''-'' @ padNat 2 (nat d)"








subsection \<open>parseFloat and an ISO date parser\<close>

definition pow10 :: "int \<Rightarrow> rat" where
  "pow10 e = (if 0 \<le> e then of_int (10 ^ nat e) else 1 / of_int (10 ^ nat (- e)))"

text \<open>The value of an exponent part at the start of \<open>s\<close>; without a well-formed one
  (\<^verbatim>\<open>e\<close>, an optional sign, at least one digit) the number ends before it.\<close>

definition parseExponent :: "string \<Rightarrow> int" where
  "parseExponent s =
     (case s of
        [] \<Rightarrow> 0
      | c # r \<Rightarrow>
          if c = CHR ''e'' \<or> c = CHR ''E'' then
            (case r of
               [] \<Rightarrow> 0
             | d # r' \<Rightarrow>
                 if d = CHR ''-'' then - int (digitsVal (takeWhile isDigit r'))
                 else if d = CHR ''+'' then int (digitsVal (takeWhile isDigit r'))
                 else int (digitsVal (takeWhile isDigit r)))
          else 0)"

definition parseUnsigned :: "string \<Rightarrow> jsnum" where
  "parseUnsigned s =
     (if take 8 s = ''Infinity'' then PosInf
      else
        let ip = takeWhile isDigit s; r1 = dropWhile isDigit s
        in (case r1 of
              [] \<Rightarrow> if ip = [] then NaN else binary64 (of_nat (digitsVal ip))
            | c # r2 \<Rightarrow>
                if c = CHR ''.'' then
                  let fp = takeWhile isDigit r2; r3 = dropWhile isDigit r2
                  in if ip = [] \<and> fp = [] then NaN
                     else binary64 ((of_nat (digitsVal ip) + of_nat (digitsVal fp) / 10 ^ length fp)
                                     * pow10 (parseExponent r3))
                else if ip = [] then NaN
                else binary64 (of_nat (digitsVal ip) * pow10 (parseExponent r1))))"

fun js_neg :: "jsnum \<Rightarrow> jsnum" where
  "js_neg (Fin x) = Fin (- x)"
| "js_neg PosInf = NegInf"
| "js_neg NegInf = PosInf"
| "js_neg NaN = NaN"

text \<open>\<^verbatim>\<open>Number.parseFloat\<close>: leading white space is skipped, the longest prefix that is a
  decimal literal is read, and what follows it is ignored; no such prefix gives \<open>NaN\<close>.
  The result is the number for the exact decimal value.\<close>

definition parseFloat :: "string \<Rightarrow> jsnum" where
  "parseFloat s =
     (case dropWhile isWhiteSpace s of
        [] \<Rightarrow> NaN
      | c # r \<Rightarrow>
          if c = CHR ''-'' then js_neg (parseUnsigned r)
          else if c = CHR ''+'' then parseUnsigned r
          else parseUnsigned (c # r))"

text \<open>\<^verbatim>\<open>Array.prototype.some\<close> and \<^verbatim>\<open>every\<close>.\<close>

primrec array_some :: "('a \<Rightarrow> bool) \<Rightarrow> 'a list \<Rightarrow> bool" where
  "array_some P [] = False"
| "array_some P (x # xs) = (P x \<or> array_some P xs)"

primrec array_every :: "('a \<Rightarrow> bool) \<Rightarrow> 'a list \<Rightarrow> bool" where
  "array_every P [] = True"
| "array_every P (x # xs) = (P x \<and> array_every P xs)"

text \<open>An instance of \<^verbatim>\<open>Date.parse\<close>: the date-only ISO form \<^verbatim>\<open>YYYY-MM-DD\<close>, which the
  standard reads as midnight UTC of that day, and nothing else. It is the form the
  README prescribes for the date column.\<close>

definition parseIsoDate :: "string \<Rightarrow> int option" where
  "parseIsoDate s =
     (if length s = 10 \<and> s ! 4 = CHR ''-'' \<and> s ! 7 = CHR ''-'' \<and>
         array_every isDigit (take 4 s) \<and> array_every isDigit (take 2 (drop 5 s)) \<and>
         array_every isDigit (drop 8 s)
      then
        let y = int (digitsVal (take 4 s));
            m = int (digitsVal (take 2 (drop 5 s)));
            d = int (digitsVal (drop 8 s))
        in if 1 \<le> m \<and> m \<le> 12 \<and> 1 \<le> d \<and> d \<le> DaysInMonth y (m - 1)
           then Some (MakeDate (MakeDay y (m - 1) d) (MakeTime 0 0 0 0))
           else None
      else None)"

subsection \<open>parsePlan\<close>

record PlanEntry =
  duration :: jsnum
  "note" :: "string option"

text \<open>A \<^verbatim>\<open>PlanMap\<close> is a JavaScript object: its keys are distinct and keep the order in
  which they were first set. \<open>AList.update\<close> is the assignment \<^verbatim>\<open>map[key] = entry\<close>
  (in place for a key that is there, at the end for a new one), \<open>AList.delete\<close> is
  \<^verbatim>\<open>delete map[key]\<close>, and \<open>map_of\<close> is the lookup \<^verbatim>\<open>map[key]\<close>.\<close>

type_synonym PlanMap = "(string \<times> PlanEntry) list"

fun splitCsvLoop :: "string \<Rightarrow> string list \<Rightarrow> string \<Rightarrow> bool \<Rightarrow> string list \<times> string \<times> bool" where
  "splitCsvLoop [] cells current inQuotes = (cells, current, inQuotes)"
| "splitCsvLoop [char] cells current inQuotes =
     (if char = dquote then (cells, current, \<not> inQuotes)
      else if char = CHR '','' \<and> \<not> inQuotes then (cells @ [trim current], [], inQuotes)
      else (cells, current @ [char], inQuotes))"
| "splitCsvLoop (char # next # rest) cells current inQuotes =
     (if char = dquote then
        (if inQuotes \<and> next = dquote then splitCsvLoop rest cells (current @ [dquote]) inQuotes
         else splitCsvLoop (next # rest) cells current (\<not> inQuotes))
      else if char = CHR '','' \<and> \<not> inQuotes then
        splitCsvLoop (next # rest) (cells @ [trim current]) [] inQuotes
      else splitCsvLoop (next # rest) cells (current @ [char]) inQuotes)"

definition splitCsvLine :: "string \<Rightarrow> string list \<times> bool" where
  "splitCsvLine line =
     (case splitCsvLoop line [] [] False of
        (cells, current, inQuotes) \<Rightarrow> (cells @ [trim current], inQuotes))"

definition normalizeCell :: "string \<Rightarrow> string" where
  "normalizeCell cell = trim (stripQuotes cell)"

definition rowsOf :: "string \<Rightarrow> string list" where
  "rowsOf raw = filter (\<lambda>line. length line > 0) (map trim (splitLines raw []))"

definition lineError :: "nat \<Rightarrow> string \<Rightarrow> string" where
  "lineError index msg = ''Line '' @ showNat (index + 1) @ '': '' @ msg"

definition isHeader :: "nat \<Rightarrow> string list \<Rightarrow> bool" where
  "isHeader index normalizedCells =
     (index = 0 \<and> array_some (regexTestCI ''date'') normalizedCells \<and>
      array_some (regexTestCI ''duration'') normalizedCells)"

text \<open>The callback of \<^verbatim>\<open>rows.forEach\<close>: the state is the pair of \<^verbatim>\<open>map\<close> and \<^verbatim>\<open>errors\<close>
  that the callback mutates (\<open>map'\<close> for \<^verbatim>\<open>map\<close>), and every \<^verbatim>\<open>return\<close> is a branch.\<close>

definition processRow ::
  "(string \<Rightarrow> int option) \<Rightarrow> int \<Rightarrow> PlanMap \<times> string list \<Rightarrow> string \<Rightarrow> nat \<Rightarrow> PlanMap \<times> string list"
where
  "processRow dateParse tz state line index =
     (case state of (map', errors) \<Rightarrow>
      (case splitCsvLine line of (cells, inQuotes) \<Rightarrow>
        if inQuotes then (map', errors @ [lineError index ''missing closing quote.''])
        else
          let normalizedCells = map normalizeCell cells
          in if isHeader index normalizedCells then (map', errors)
             else if length normalizedCells < 2 then
               (map', errors @ [lineError index ''expected at least two columns (date,duration).''])
             else
               let dateValue = normalizedCells ! 0;
                   durationValue = normalizedCells ! 1;
                   noteValue = (if 2 < length normalizedCells then Some (normalizedCells ! 2) else None)
               in (case dateParse dateValue of
                     None \<Rightarrow>
                       (map', errors @ [lineError index
                          (''could not understand date '' @ [dquote] @ dateValue @ [dquote] @ ''.'')])
                   | Some parsedDate \<Rightarrow>
                       let parsedDuration = parseFloat durationValue
                       in if \<not> isFinite parsedDuration \<or> js_le parsedDuration (Fin 0) then
                            (map', errors @ [lineError index ''duration should be a positive number.''])
                          else
                            let key = formatKey tz parsedDate
                            in (AList.update key
                                  \<lparr>duration = Math_round parsedDuration,
                                   note = (case noteValue of
                                             None \<Rightarrow> None
                                           | Some n \<Rightarrow> if length n \<noteq> 0 then Some n else None)\<rparr>
                                  map',
                                errors))))"

fun forEachRow ::
  "(string \<Rightarrow> int option) \<Rightarrow> int \<Rightarrow> string list \<Rightarrow> nat \<Rightarrow> PlanMap \<times> string list \<Rightarrow> PlanMap \<times> string list"
where
  "forEachRow dateParse tz [] index state = state"
| "forEachRow dateParse tz (line # rest) index state =
     forEachRow dateParse tz rest (Suc index) (processRow dateParse tz state line index)"

definition parsePlan :: "(string \<Rightarrow> int option) \<Rightarrow> int \<Rightarrow> string \<Rightarrow> PlanMap \<times> string list" where
  "parsePlan dateParse tz raw =
     (if trim raw = [] then ([], [])
      else forEachRow dateParse tz (rowsOf raw) 0 ([], []))"

subsection \<open>combinedPlan and the text of a day cell\<close>

text \<open>\<^verbatim>\<open>Object.entries(manualOverrides).forEach\<close> over a copy of \<^verbatim>\<open>plan\<close>.\<close>

definition combinedPlan :: "PlanMap \<Rightarrow> PlanMap \<Rightarrow> PlanMap" where
  "combinedPlan plan manualOverrides =
     foldl (\<lambda>merged (key, entry).
              if js_gt (duration entry) (Fin 0) then AList.update key entry merged
              else AList.delete key merged)
       plan manualOverrides"




subsection \<open>buildCalendar\<close>

record CalendarCell =
  date :: int
  isCurrentMonth :: bool



subsection \<open>Concrete inputs\<close>

text \<open>The five lines of the specification's example, joined by line feeds.\<close>

definition examplePlan :: string where
  \<open>examplePlan =
     ''date,duration,note'' @ [LF] @ ''2024-01-01,15,"Ease in"'' @ [LF] @
     ''2024-01-08,25,'' @ [LF] @ ''bad-line,,'' @ [LF] @ ''2024-01-15,35''\<close>

section \<open>Properties\<close>

subsection \<open>Rounding to binary64\<close>

lemma pow2_powi: "pow2 e = 2 powi e"
  by (simp add: pow2_def power_int_def power_one_over)

text \<open>\<open>exponentOf\<close> is the binary exponent of a positive number.\<close>

lemma exponentOf_bounds:
  assumes "0 < x"
  shows "pow2 (exponentOf x) \<le> x \<and> x < pow2 (exponentOf x + 1)"
proof -
  obtain p q where pq: "quotient_of x = (p, q)"
    by (cases "quotient_of x")
  have q: "0 < q"
    using quotient_of_denom_pos [OF pq] .
  have x: "x = of_int p / of_int q"
    using quotient_of_div [OF pq] .
  have p: "0 < p"
    using assms q by (simp add: x zero_less_divide_iff)
  define k where "k = bitlen p - bitlen q"
  have bp: "2 powi (bitlen p - 1) \<le> (of_int p :: rat)" "(of_int p :: rat) < 2 powi bitlen p"
  proof -
    have "2 ^ nat (bitlen p - 1) \<le> p" "p < 2 ^ nat (bitlen p)"
      using bitlen_bounds [OF p] by simp_all
    then have "(of_int (2 ^ nat (bitlen p - 1)) :: rat) \<le> of_int p"
      "(of_int p :: rat) < of_int (2 ^ nat (bitlen p))"
      by (simp_all only: of_int_le_iff of_int_less_iff)
    moreover have "1 \<le> bitlen p"
      using p by (simp add: bitlen_alt_def)
    ultimately show "2 powi (bitlen p - 1) \<le> (of_int p :: rat)" "(of_int p :: rat) < 2 powi bitlen p"
      by (simp_all add: power_int_def)
  qed
  have bq: "2 powi (bitlen q - 1) \<le> (of_int q :: rat)" "(of_int q :: rat) < 2 powi bitlen q"
  proof -
    have "2 ^ nat (bitlen q - 1) \<le> q" "q < 2 ^ nat (bitlen q)"
      using bitlen_bounds [OF q] by simp_all
    then have "(of_int (2 ^ nat (bitlen q - 1)) :: rat) \<le> of_int q"
      "(of_int q :: rat) < of_int (2 ^ nat (bitlen q))"
      by (simp_all only: of_int_le_iff of_int_less_iff)
    moreover have "1 \<le> bitlen q"
      using q by (simp add: bitlen_alt_def)
    ultimately show "2 powi (bitlen q - 1) \<le> (of_int q :: rat)" "(of_int q :: rat) < 2 powi bitlen q"
      by (simp_all add: power_int_def)
  qed
  have qpos: "(0::rat) < of_int q" using q by simp
  have lo: "2 powi (k - 1) \<le> x"
  proof -
    have "(2::rat) powi (k - 1) = 2 powi (bitlen p - 1) / 2 powi bitlen q"
      by (simp add: k_def power_int_diff [symmetric] algebra_simps)
    also have "\<dots> \<le> of_int p / 2 powi bitlen q"
      using bp(1) by (simp add: divide_right_mono)
    also have "\<dots> \<le> of_int p / of_int q"
      using bq(2) p qpos by (intro divide_left_mono) (simp_all add: less_imp_le)
    finally show ?thesis by (simp add: x)
  qed
  have hi: "x < 2 powi (k + 1)"
  proof -
    have "of_int p / of_int q < (2::rat) powi bitlen p / of_int q"
      using bp(2) qpos by (simp add: divide_strict_right_mono)
    also have "\<dots> \<le> 2 powi bitlen p / 2 powi (bitlen q - 1)"
      using bq(1) qpos by (intro divide_left_mono) simp_all
    also have "\<dots> = 2 powi (k + 1)"
      by (simp add: k_def power_int_diff [symmetric] algebra_simps)
    finally show ?thesis by (simp add: x)
  qed
  have e: "exponentOf x = (if 2 powi k \<le> x then k else k - 1)"
    by (simp add: exponentOf_def pq k_def Let_def pow2_powi)
  show ?thesis
    using lo hi by (auto simp: e pow2_powi)
qed


text \<open>\<open>fl x\<close> is a multiple of the spacing at \<open>x\<close> that is at most half a spacing away
  from \<open>x\<close>.\<close>

lemma roundTiesToEven_nearest: "\<bar>of_int (roundTiesToEven x) - x\<bar> \<le> 1 / 2"
proof -
  have "of_int \<lfloor>x\<rfloor> \<le> x" "x < of_int \<lfloor>x\<rfloor> + 1"
    by linarith+
  then show ?thesis
    by (auto simp: roundTiesToEven_def Let_def abs_le_iff)
qed

lemma pow2_pos: "0 < pow2 e"
  by (simp add: pow2_def)

lemma fl_nearest:
  "\<bar>fl x - x\<bar> \<le> pow2 (max (exponentOf \<bar>x\<bar>) (- 1022) - 52) / 2"
proof (cases "x = 0")
  case True
  then show ?thesis
    using pow2_pos [of "max (exponentOf \<bar>x\<bar>) (- 1022) - 52"] by (simp add: fl_def)
next
  case False
  define u where "u = pow2 (max (exponentOf \<bar>x\<bar>) (- 1022) - 52)"
  have u: "0 < u"
    by (simp add: u_def pow2_pos)
  define m where "m = roundTiesToEven (\<bar>x\<bar> / u)"
  have "of_int m * u - \<bar>x\<bar> = (of_int m - \<bar>x\<bar> / u) * u"
    using u by (simp add: field_simps)
  then have "\<bar>of_int m * u - \<bar>x\<bar>\<bar> = \<bar>of_int m - \<bar>x\<bar> / u\<bar> * u"
    using u by (simp add: abs_mult)
  also have "\<dots> \<le> 1 / 2 * u"
    using roundTiesToEven_nearest [of "\<bar>x\<bar> / u"] u
    unfolding m_def by (intro mult_right_mono) simp_all
  finally have near: "\<bar>of_int (roundTiesToEven (\<bar>x\<bar> / u)) * u - \<bar>x\<bar>\<bar> \<le> u / 2"
    by (simp add: m_def)
  note near' = near [unfolded u_def]
  show ?thesis
  proof (cases "0 < x")
    case True
    then show ?thesis
      using near' False by (simp add: fl_def Let_def)
  next
    case neg: False
    then have "x < 0" using False by simp
    then show ?thesis
      using near' by (simp add: fl_def Let_def abs_if split: if_splits)
  qed
qed


subsection \<open>Merging manual overrides into the plan\<close>

lemma map_of_combinedPlan:
  "distinct (map fst manualOverrides) \<Longrightarrow>
   map_of (combinedPlan plan manualOverrides) key =
     (case map_of manualOverrides key of
        None \<Rightarrow> map_of plan key
      | Some entry \<Rightarrow> if js_gt (duration entry) (Fin 0) then Some entry else None)"
proof (induction manualOverrides arbitrary: plan)
  case Nil
  then show ?case by (simp add: combinedPlan_def)
next
  case (Cons p ps)
  obtain k e where p: "p = (k, e)" by (cases p)
  let ?plan' = "if js_gt (duration e) (Fin 0) then AList.update k e plan else AList.delete k plan"
  have step: "combinedPlan plan (p # ps) = combinedPlan ?plan' ps"
    by (simp add: combinedPlan_def p)
  have d: "distinct (map fst ps)" and k: "k \<notin> fst ` set ps"
    using Cons.prems by (auto simp: p)
  have none: "key = k \<Longrightarrow> map_of ps key = None"
    using k by (simp add: map_of_eq_None_iff)
  show ?case
    unfolding step Cons.IH [OF d]
    using none
    by (auto simp: p update_conv' delete_conv' split: option.splits)
qed

text \<open>
  Claim C4. The merged plan is the parsed plan updated by the overrides: a key without an
  override keeps what the parsed plan has for it; an override with a duration above 0
  replaces or inserts the entry at its key; an override with a duration of 0 or less
  removes the key, also when the parsed plan has an entry for it, so the merged plan
  holds no entry at all (and no zero-duration entry) for such a date. The overrides are the
  entries of a JavaScript object, whose keys are distinct.
\<close>

theorem combinedPlan_merge:
  assumes "distinct (map fst manualOverrides)"
  shows "(map_of manualOverrides key = None \<longrightarrow>
            map_of (combinedPlan plan manualOverrides) key = map_of plan key) \<and>
         (\<forall>entry. map_of manualOverrides key = Some entry \<and> js_gt (duration entry) (Fin 0) \<longrightarrow>
            map_of (combinedPlan plan manualOverrides) key = Some entry) \<and>
         (\<forall>entry. map_of manualOverrides key = Some entry \<and> js_le (duration entry) (Fin 0) \<longrightarrow>
            map_of (combinedPlan plan manualOverrides) key = None)"
proof -
  have le_not_gt: "\<not> js_gt d (Fin 0)" if "js_le d (Fin 0)" for d
    using that by (cases d) (auto simp: js_le_def js_gt_def)
  show ?thesis
    using map_of_combinedPlan [OF assms, of plan key] le_not_gt by auto
qed

theorem combinedPlan_merge_witness:
  "distinct (map fst
     [(''2024-01-01'', \<lparr>duration = Fin 0, note = None\<rparr>),
      (''2024-01-02'', \<lparr>duration = Fin 20, note = None\<rparr>)]) \<and>
   map_of (combinedPlan
     [(''2024-01-01'', \<lparr>duration = Fin 15, note = Some ''Ease in''\<rparr>),
      (''2024-01-03'', \<lparr>duration = Fin 30, note = None\<rparr>)]
     [(''2024-01-01'', \<lparr>duration = Fin 0, note = None\<rparr>),
      (''2024-01-02'', \<lparr>duration = Fin 20, note = None\<rparr>)]) ''2024-01-01'' = None \<and>
   map_of (combinedPlan
     [(''2024-01-01'', \<lparr>duration = Fin 15, note = Some ''Ease in''\<rparr>),
      (''2024-01-03'', \<lparr>duration = Fin 30, note = None\<rparr>)]
     [(''2024-01-01'', \<lparr>duration = Fin 0, note = None\<rparr>),
      (''2024-01-02'', \<lparr>duration = Fin 20, note = None\<rparr>)]) ''2024-01-02''
     = Some \<lparr>duration = Fin 20, note = None\<rparr> \<and>
   map_of (combinedPlan
     [(''2024-01-01'', \<lparr>duration = Fin 15, note = Some ''Ease in''\<rparr>),
      (''2024-01-03'', \<lparr>duration = Fin 30, note = None\<rparr>)]
     [(''2024-01-01'', \<lparr>duration = Fin 0, note = None\<rparr>),
      (''2024-01-02'', \<lparr>duration = Fin 20, note = None\<rparr>)]) ''2024-01-03''
     = Some \<lparr>duration = Fin 30, note = None\<rparr>"
proof -
  let ?ov = "[(''2024-01-01'', \<lparr>duration = Fin 0, note = None\<rparr>),
              (''2024-01-02'', \<lparr>duration = Fin 20, note = None\<rparr>)]"
  have d: "distinct (map fst ?ov)"
    by simp
  show ?thesis
    using d combinedPlan_merge [OF d, of "''2024-01-01''"]
      combinedPlan_merge [OF d, of "''2024-01-02''"]
      combinedPlan_merge [OF d, of "''2024-01-03''"]
    by (simp add: js_le_def js_gt_def)
qed






subsection \<open>The parser\<close>

lemma trim_Nil_iff: "trim s = [] \<longleftrightarrow> (\<forall>c \<in> set s. isWhiteSpace c)"
proof
  assume "trim s = []"
  then have a: "\<forall>c \<in> set (dropWhile isWhiteSpace s). isWhiteSpace c"
    by (simp add: trim_def dropWhile_eq_Nil_conv)
  have "dropWhile isWhiteSpace s = []"
  proof (rule ccontr)
    assume n: "dropWhile isWhiteSpace s \<noteq> []"
    then have "\<not> isWhiteSpace (hd (dropWhile isWhiteSpace s))"
      by (rule hd_dropWhile)
    moreover have "hd (dropWhile isWhiteSpace s) \<in> set (dropWhile isWhiteSpace s)"
      using n by simp
    ultimately show False using a by blast
  qed
  then show "\<forall>c \<in> set s. isWhiteSpace c"
    by (simp add: dropWhile_eq_Nil_conv)
next
  assume "\<forall>c \<in> set s. isWhiteSpace c"
  then show "trim s = []"
    by (auto simp: trim_def dropWhile_eq_Nil_conv dest: set_dropWhileD)
qed

lemma set_splitLines:
  "l \<in> set (splitLines s current) \<Longrightarrow> set l \<subseteq> set s \<union> set current"
  by (induction s current arbitrary: l rule: splitLines.induct)
     (auto split: if_splits)

lemma rowsOf_blank: "trim raw = [] \<Longrightarrow> rowsOf raw = []"
proof -
  assume "trim raw = []"
  then have w: "\<forall>c \<in> set raw. isWhiteSpace c"
    by (simp add: trim_Nil_iff)
  have "trim l = []" if "l \<in> set (splitLines raw [])" for l
    using set_splitLines [OF that] w by (auto simp: trim_Nil_iff)
  then show ?thesis
    by (auto simp: rowsOf_def filter_empty_conv)
qed

lemma forEachRow_append:
  "forEachRow dateParse tz (xs @ ys) index state =
   forEachRow dateParse tz ys (index + length xs) (forEachRow dateParse tz xs index state)"
  by (induction xs arbitrary: index state) auto

lemma processRow_open_quote:
  "snd (splitCsvLine line) \<Longrightarrow>
   processRow dateParse tz state line index =
     (fst state, snd state @ [''Line '' @ showNat (index + 1) @ '': missing closing quote.''])"
  by (cases state; cases "splitCsvLine line") (simp add: processRow_def lineError_def)

lemma processRow_header:
  "splitCsvLine line = (cells, False) \<Longrightarrow>
   array_some (regexTestCI ''date'') (map normalizeCell cells) \<Longrightarrow>
   array_some (regexTestCI ''duration'') (map normalizeCell cells) \<Longrightarrow>
   processRow dateParse tz state line 0 = state"
  by (cases state) (simp add: processRow_def isHeader_def)


text \<open>
  Claim C9. Let line \<open>i\<close> (counted from 0 among the trimmed non-blank lines) end inside an
  open quote. Then the parser's result is what the remaining lines make of the state the
  lines before it left, with the map unchanged and exactly the error
  \<^verbatim>\<open>Line <i+1>: missing closing quote.\<close> added: the line stores no entry, and the lines after it
  are processed as usual, each at its own position. A line that is a single quote character
  is the case \<open>i = 0\<close> of the witness.
\<close>

theorem parsePlan_missing_closing_quote:
  assumes "i < length (rowsOf raw)"
    and "snd (splitCsvLine (rowsOf raw ! i))"
  shows "parsePlan dateParse tz raw =
           forEachRow dateParse tz (drop (Suc i) (rowsOf raw)) (Suc i)
             (fst (forEachRow dateParse tz (take i (rowsOf raw)) 0 ([], [])),
              snd (forEachRow dateParse tz (take i (rowsOf raw)) 0 ([], [])) @
                [''Line '' @ showNat (i + 1) @ '': missing closing quote.''])"
proof -
  let ?rows = "rowsOf raw"
  have ne: "trim raw \<noteq> []"
    using assms(1) rowsOf_blank [of raw] by auto
  have split: "?rows = take i ?rows @ (?rows ! i) # drop (Suc i) ?rows"
    using assms(1) by (simp add: id_take_nth_drop)
  have len: "length (take i ?rows) = i"
    using assms(1) by simp
  have "parsePlan dateParse tz raw = forEachRow dateParse tz ?rows 0 ([], [])"
    using ne by (simp add: parsePlan_def)
  also have "\<dots> = forEachRow dateParse tz ((?rows ! i) # drop (Suc i) ?rows) i
                     (forEachRow dateParse tz (take i ?rows) 0 ([], []))"
    using forEachRow_append [of dateParse tz "take i ?rows" "(?rows ! i) # drop (Suc i) ?rows" 0 "([], [])"]
      split len by simp
  finally show ?thesis
    by (simp add: processRow_open_quote [OF assms(2)])
qed

theorem parsePlan_missing_closing_quote_witness:
  \<open>0 < length (rowsOf (''"'' @ [LF] @ ''2024-01-08,25,'')) \<and>
   snd (splitCsvLine (rowsOf (''"'' @ [LF] @ ''2024-01-08,25,'') ! 0)) \<and>
   parsePlan parseIsoDate 0 (''"'' @ [LF] @ ''2024-01-08,25,'') =
     ([(''2024-01-08'', \<lparr>duration = Fin 25, note = None\<rparr>)],
      [''Line 1: missing closing quote.''])\<close>
proof -
  let ?raw = \<open>''"'' @ [LF] @ ''2024-01-08,25,''\<close>
  have h1: "0 < length (rowsOf ?raw)"
    by code_simp
  have h2: "snd (splitCsvLine (rowsOf ?raw ! 0))"
    by code_simp
  have e: "forEachRow parseIsoDate 0 (drop (Suc 0) (rowsOf ?raw)) (Suc 0)
             (fst (forEachRow parseIsoDate 0 (take 0 (rowsOf ?raw)) 0 ([], [])),
              snd (forEachRow parseIsoDate 0 (take 0 (rowsOf ?raw)) 0 ([], [])) @
                [''Line '' @ showNat (0 + 1) @ '': missing closing quote.'']) =
           ([(''2024-01-08'', \<lparr>duration = Fin 25, note = None\<rparr>)],
            [''Line 1: missing closing quote.''])"
    by code_simp
  show ?thesis
    using h1 h2 trans [OF parsePlan_missing_closing_quote [OF h1 h2, of parseIsoDate 0] e]
    by blast
qed

text \<open>
  Claim C10. Whenever the first non-blank line has a cell that contains \<^verbatim>\<open>date\<close> and a cell
  that contains \<^verbatim>\<open>duration\<close> (letter case ignored), the parser skips it: the result is what the
  other lines produce, with neither an entry nor an error for the first one, whatever its
  date and duration cells hold. The witness is a first line with a parseable date, the
  duration 15 and the note \<^verbatim>\<open>Update Duration\<close>: as a second line it would store an entry,
  as the first line it leaves the plan empty and reports nothing.
\<close>

theorem parsePlan_first_row_taken_as_header:
  assumes "rowsOf raw = line # rest"
    and "splitCsvLine line = (cells, False)"
    and "array_some (regexTestCI ''date'') (map normalizeCell cells)"
    and "array_some (regexTestCI ''duration'') (map normalizeCell cells)"
  shows "parsePlan dateParse tz raw = forEachRow dateParse tz rest 1 ([], [])"
proof -
  have ne: "trim raw \<noteq> []"
    using assms(1) rowsOf_blank [of raw] by auto
  show ?thesis
    using ne assms(1) processRow_header [OF assms(2-4), of dateParse tz "([], [])"]
    by (simp add: parsePlan_def)
qed

theorem parsePlan_first_row_taken_as_header_witness:
  "rowsOf ''2024-01-01,15,Update Duration'' = [''2024-01-01,15,Update Duration''] \<and>
   splitCsvLine ''2024-01-01,15,Update Duration'' = ([''2024-01-01'', ''15'', ''Update Duration''], False) \<and>
   array_some (regexTestCI ''date'') (map normalizeCell [''2024-01-01'', ''15'', ''Update Duration'']) \<and>
   array_some (regexTestCI ''duration'') (map normalizeCell [''2024-01-01'', ''15'', ''Update Duration'']) \<and>
   parseIsoDate ''2024-01-01'' = Some 1704067200000 \<and>
   parseFloat ''15'' = Fin 15 \<and>
   processRow parseIsoDate 0 ([], []) ''2024-01-01,15,Update Duration'' 1 =
     ([(''2024-01-01'', \<lparr>duration = Fin 15, note = Some ''Update Duration''\<rparr>)], []) \<and>
   parsePlan parseIsoDate 0 ''2024-01-01,15,Update Duration'' = ([], [])"
proof -
  let ?line = "''2024-01-01,15,Update Duration''"
  let ?cells = "[''2024-01-01'', ''15'', ''Update Duration'']"
  have h1: "rowsOf ?line = ?line # []"
    by code_simp
  have h2: "splitCsvLine ?line = (?cells, False)"
    by code_simp
  have h3: "array_some (regexTestCI ''date'') (map normalizeCell ?cells)"
    by code_simp
  have h4: "array_some (regexTestCI ''duration'') (map normalizeCell ?cells)"
    by code_simp
  have v1: "parseIsoDate ''2024-01-01'' = Some 1704067200000"
    by code_simp
  have v2: "parseFloat ''15'' = Fin 15"
    by code_simp
  have v3: "processRow parseIsoDate 0 ([], []) ?line 1 =
     ([(''2024-01-01'', \<lparr>duration = Fin 15, note = Some ''Update Duration''\<rparr>)], [])"
    by code_simp
  show ?thesis
    using h1 h2 h3 h4 v1 v2 v3 parsePlan_first_row_taken_as_header [OF h1 h2 h3 h4, of parseIsoDate 0]
    by simp
qed


text \<open>
  The example of the specification, parsed with the local time zone at UTC: the three keys
  are the dates of the rows.
\<close>

lemma parsePlan_example_utc:
  "parsePlan parseIsoDate 0 examplePlan =
     ([(''2024-01-01'', \<lparr>duration = Fin 15, note = Some ''Ease in''\<rparr>),
       (''2024-01-08'', \<lparr>duration = Fin 25, note = None\<rparr>),
       (''2024-01-15'', \<lparr>duration = Fin 35, note = None\<rparr>)],
      [''Line 4: could not understand date '' @ [dquote] @ ''bad-line'' @ [dquote] @ ''.''])"
  by code_simp

text \<open>
  Claim C1 at two failing inputs: the same text parsed five hours west of UTC and one hour
  east of it. The three entries and the error of line 4 are there, but every key is the day
  before the date of its row. West of UTC that key is the key of another cell of the
  calendar: the cell of 1 January 2024 has the key \<^verbatim>\<open>2024-01-01\<close>, under which the plan holds
  nothing.
\<close>

theorem parsePlan_example_off_utc:
  "parsePlan parseIsoDate (- 300) examplePlan =
     ([(''2023-12-31'', \<lparr>duration = Fin 15, note = Some ''Ease in''\<rparr>),
       (''2024-01-07'', \<lparr>duration = Fin 25, note = None\<rparr>),
       (''2024-01-14'', \<lparr>duration = Fin 35, note = None\<rparr>)],
      [''Line 4: could not understand date '' @ [dquote] @ ''bad-line'' @ [dquote] @ ''.'']) \<and>
   formatKey (- 300) (newDate (- 300) 2024 0 1) = ''2024-01-01'' \<and>
   parsePlan parseIsoDate 60 examplePlan =
     ([(''2023-12-31'', \<lparr>duration = Fin 15, note = Some ''Ease in''\<rparr>),
       (''2024-01-07'', \<lparr>duration = Fin 25, note = None\<rparr>),
       (''2024-01-14'', \<lparr>duration = Fin 35, note = None\<rparr>)],
      [''Line 4: could not understand date '' @ [dquote] @ ''bad-line'' @ [dquote] @ ''.''])"
  by code_simp

text \<open>
  Claim C2 at a failing input: one hour east of UTC, the Date whose local fields are
  1 January 2024, 00:00 (the time value 1704063600000) gets the key of 31 December 2023.
\<close>

theorem formatKey_utc_plus_1:
  "getFullYear 60 1704063600000 = 2024 \<and> getMonth 60 1704063600000 = 0 \<and>
   getDate 60 1704063600000 = 1 \<and> formatKey 60 1704063600000 = ''2023-12-31''"
  by code_simp

text \<open>
  Claim C7 at a failing input: the duration cell \<^verbatim>\<open>0.4\<close> is finite and above 0, so it passes
  the check, and it is stored rounded, as the duration 0.
\<close>

theorem parsePlan_duration_rounds_to_zero:
  "parseFloat ''0.4'' = Fin (3602879701896397 / 9007199254740992) \<and>
   parsePlan parseIsoDate 0 ''2024-01-01,0.4'' =
     ([(''2024-01-01'', \<lparr>duration = Fin 0, note = None\<rparr>)], [])"
  by code_simp

text \<open>What the parser does guarantee for every input: a stored duration is an integer that
  is not negative, and a stored note is not empty.\<close>

lemma set_AList_update:
  "x \<in> set (AList.update k v al) \<Longrightarrow> x = (k, v) \<or> x \<in> set al"
  by (induction al) (auto split: if_splits)

lemma round_half_up_nonneg: "0 < x \<Longrightarrow> 0 \<le> round_half_up x"
  by (simp add: round_half_up_def)

lemma processRow_fst:
  "fst (processRow dateParse tz (m, es) line index) = m \<or>
   (\<exists>key x nt. 0 < x \<and> nt \<noteq> Some [] \<and>
      fst (processRow dateParse tz (m, es) line index) =
        AList.update key \<lparr>duration = Fin (of_int (round_half_up x)), note = nt\<rparr> m)"
proof -
  obtain cells inQ where sp: "splitCsvLine line = (cells, inQ)"
    by (cases "splitCsvLine line")
  define nc where "nc = map normalizeCell cells"
  define d where "d = parseFloat (nc ! 1)"
  define nt where "nt = (case (if 2 < length nc then Some (nc ! 2) else None) of
      None \<Rightarrow> None | Some n \<Rightarrow> if length n \<noteq> 0 then Some n else None)"
  show ?thesis
  proof (cases "inQ \<or> isHeader index nc \<or> length nc < 2 \<or> dateParse (nc ! 0) = None \<or>
      \<not> isFinite d \<or> js_le d (Fin 0)")
    case True
    then have "fst (processRow dateParse tz (m, es) line index) = m"
      by (auto simp: processRow_def sp Let_def nc_def d_def split: option.splits)
    then show ?thesis by simp
  next
    case False
    then obtain t where t: "dateParse (nc ! 0) = Some t"
      by auto
    obtain x where x: "d = Fin x" "0 < x"
      using False by (cases d) (auto simp: js_le_def)
    have dx: "parseFloat (nc ! Suc 0) = Fin x"
      using x(1) by (simp add: d_def)
    have "fst (processRow dateParse tz (m, es) line index) =
        AList.update (formatKey tz t) \<lparr>duration = Fin (of_int (round_half_up x)), note = nt\<rparr> m"
      using False t x dx
      by (simp add: processRow_def sp Let_def nc_def [symmetric] nt_def [symmetric] js_le_def)
    moreover have "nt \<noteq> Some []"
      by (simp add: nt_def)
    ultimately show ?thesis
      using x(2) by blast
  qed
qed

lemma processRow_entries:
  assumes "\<forall>(k, e) \<in> set (fst state).
             (\<exists>n. 0 \<le> n \<and> duration e = Fin (of_int n)) \<and> note e \<noteq> Some []"
    and "(k, e) \<in> set (fst (processRow dateParse tz state line index))"
  shows "(\<exists>n. 0 \<le> n \<and> duration e = Fin (of_int n)) \<and> note e \<noteq> Some []"
proof -
  obtain m es where st: "state = (m, es)" by (cases state)
  from processRow_fst [of dateParse tz m es line index]
  show ?thesis
  proof
    assume "fst (processRow dateParse tz (m, es) line index) = m"
    then show ?thesis using assms by (auto simp: st)
  next
    assume "\<exists>key x nt. 0 < x \<and> nt \<noteq> Some [] \<and>
      fst (processRow dateParse tz (m, es) line index) =
        AList.update key \<lparr>duration = Fin (of_int (round_half_up x)), note = nt\<rparr> m"
    then obtain key x nt where x: "0 < x" "nt \<noteq> Some []"
      and eq: "fst (processRow dateParse tz (m, es) line index) =
        AList.update key \<lparr>duration = Fin (of_int (round_half_up x)), note = nt\<rparr> m"
      by blast
    have "(k, e) = (key, \<lparr>duration = Fin (of_int (round_half_up x)), note = nt\<rparr>) \<or>
        (k, e) \<in> set m"
      using assms(2) set_AList_update unfolding st eq by metis
    then show ?thesis
      using x round_half_up_nonneg [of x] assms(1) by (auto simp: st)
  qed
qed

lemma forEachRow_entries:
  assumes "\<forall>(k, e) \<in> set (fst state).
             (\<exists>n. 0 \<le> n \<and> duration e = Fin (of_int n)) \<and> note e \<noteq> Some []"
  shows "\<forall>(k, e) \<in> set (fst (forEachRow dateParse tz rows index state)).
             (\<exists>n. 0 \<le> n \<and> duration e = Fin (of_int n)) \<and> note e \<noteq> Some []"
  using assms
proof (induction rows arbitrary: index state)
  case Nil
  then show ?case by simp
next
  case (Cons line rows)
  have "\<forall>(k, e) \<in> set (fst (processRow dateParse tz state line index)).
          (\<exists>n. 0 \<le> n \<and> duration e = Fin (of_int n)) \<and> note e \<noteq> Some []"
    using processRow_entries [OF Cons.prems] by blast
  then show ?case
    using Cons.IH by simp
qed

lemma parsePlan_entries:
  "\<forall>(k, e) \<in> set (fst (parsePlan dateParse tz raw)).
     (\<exists>n. 0 \<le> n \<and> duration e = Fin (of_int n)) \<and> note e \<noteq> Some []"
  using forEachRow_entries [of "([], [])" dateParse tz "rowsOf raw" 0]
  by (simp add: parsePlan_def)


text \<open>
  Claim C8 at a failing input: the tokenizer turns the quoted field \<^verbatim>\<open>"""Hi"""\<close> into the
  cell \<^verbatim>\<open>"Hi"\<close>, whose two quotes are escaped literal quotes, and \<^verbatim>\<open>"""Hi"\<close> into the cell
  \<^verbatim>\<open>"Hi\<close> with a quote at one end only; normalization removes the quotes of both, and the
  stored note is \<^verbatim>\<open>Hi\<close>.
\<close>

theorem normalizeCell_strips_literal_quotes:
  \<open>splitCsvLine ''2024-01-01,15,"""Hi"""'' = ([''2024-01-01'', ''15'', ''"Hi"''], False) \<and>
   normalizeCell ''"Hi"'' = ''Hi'' \<and>
   splitCsvLine ''2024-01-01,15,"""Hi"'' = ([''2024-01-01'', ''15'', ''"Hi''], False) \<and>
   normalizeCell ''"Hi'' = ''Hi'' \<and>
   parsePlan parseIsoDate 0 ''2024-01-01,15,"""Hi"""'' =
     ([(''2024-01-01'', \<lparr>duration = Fin 15, note = Some ''Hi''\<rparr>)], [])\<close>
  by code_simp


subsection \<open>Calendar arithmetic\<close>

lemma div_eqI: "a = b * q + r \<Longrightarrow> 0 \<le> r \<Longrightarrow> r < b \<Longrightarrow> a div b = q" for a b q r :: int
  by (rule int_div_pos_eq)





























subsection \<open>The key of a date\<close>

lemma digitChar_not_T: "d < 10 \<Longrightarrow> digitChar d \<noteq> CHR ''T''"
proof
  assume d: "d < 10" and eq: "digitChar d = CHR ''T''"
  have "of_char (digitChar d) = (48 + d :: nat)"
    using d by (simp add: digitChar_def)
  then show False
    using d by (simp add: eq)
qed

lemma showNat_not_T: "CHR ''T'' \<notin> set (showNat n)"
proof (induction n rule: showNat.induct)
  case (1 n)
  show ?case
  proof (cases "n < 10")
    case True
    then show ?thesis
      using digitChar_not_T [of n] by (subst showNat.simps) auto
  next
    case False
    then show ?thesis
      using 1 digitChar_not_T [of "n mod 10"] by (subst showNat.simps) auto
  qed
qed

lemma padNat_not_T: "CHR ''T'' \<notin> set (padNat w n)"
  using showNat_not_T [of n] by (auto simp: padNat_def)

lemma isoYear_not_T: "CHR ''T'' \<notin> set (isoYear y)"
  using padNat_not_T by (auto simp: isoYear_def)

lemma dateKey_not_T: "CHR ''T'' \<notin> set (dateKey y m d)"
  using isoYear_not_T [of y] padNat_not_T by (auto simp: dateKey_def)

lemma takeWhile_until:
  "c \<notin> set xs \<Longrightarrow> takeWhile (\<lambda>x. x \<noteq> c) (xs @ c # ys) = xs"
  by (induction xs) auto

lemma beforeT_toISOString:
  "beforeT (toISOString t) = dateKey (YearFromTime t) (MonthFromTime t) (DateFromTime t)"
proof -
  let ?k = "dateKey (YearFromTime t) (MonthFromTime t) (DateFromTime t)"
  obtain rest where "toISOString t = ?k @ CHR ''T'' # rest"
    by (simp add: toISOString_def dateKey_def)
  then show ?thesis
    using dateKey_not_T [of "YearFromTime t" "MonthFromTime t" "DateFromTime t"]
    by (simp add: beforeT_def takeWhile_until)
qed

text \<open>The key is the date of the copy's UTC day. At or west of UTC (up to a day) that is the
  local day of the input; east of UTC it is the day before.\<close>

lemma fields_of_Day:
  "Day a = Day b \<Longrightarrow>
   YearFromTime a = YearFromTime b \<and> MonthFromTime a = MonthFromTime b \<and>
   DateFromTime a = DateFromTime b"
  by (simp add: YearFromTime_def MonthFromTime_def DateFromTime_def DayWithinYear_def
      InLeapYear_def)

lemma Day_setHours0_west:
  assumes "- 1440 < tz" "tz \<le> 0"
  shows "Day (setHours0 tz t) = Day (LocalTime tz t)"
proof -
  have "Day (LocalTime tz t) * 86400000 - tz * 60000 =
      86400000 * Day (LocalTime tz t) + (- tz * 60000)"
    by simp
  then show ?thesis
    using assms
    unfolding setHours0_def UTC_def MakeDate_def MakeTime_def Day_def [of "_ - _"] msPerDay_def
      msPerMinute_def
    by (simp add: div_eqI [where r = "- tz * 60000"])
qed

lemma Day_setHours0_east:
  assumes "0 < tz" "tz \<le> 1440"
  shows "Day (setHours0 tz t) = Day (LocalTime tz t) - 1"
proof -
  have "Day (LocalTime tz t) * 86400000 - tz * 60000 =
      86400000 * (Day (LocalTime tz t) - 1) + (86400000 - tz * 60000)"
    by simp
  then show ?thesis
    using assms
    unfolding setHours0_def UTC_def MakeDate_def MakeTime_def Day_def [of "_ - _"] msPerDay_def
      msPerMinute_def
    by (simp add: div_eqI [where r = "86400000 - tz * 60000"])
qed

lemma Day_previous: "Day (LocalTime tz (t - msPerDay)) = Day (LocalTime tz t) - 1"
  by (simp add: Day_def LocalTime_def msPerDay_def)

lemma formatKey_west_of_utc:
  assumes "- 1440 < tz" "tz \<le> 0"
  shows "formatKey tz t = dateKey (getFullYear tz t) (getMonth tz t) (getDate tz t)"
  using fields_of_Day [OF Day_setHours0_west [OF assms, of t]]
  by (simp add: formatKey_def beforeT_toISOString getFullYear_def getMonth_def getDate_def)

lemma formatKey_east_of_utc:
  assumes "0 < tz" "tz \<le> 1440"
  shows "formatKey tz t =
           dateKey (getFullYear tz (t - msPerDay)) (getMonth tz (t - msPerDay))
             (getDate tz (t - msPerDay))"
proof -
  have "Day (setHours0 tz t) = Day (LocalTime tz (t - msPerDay))"
    using Day_setHours0_east [OF assms, of t] by (simp add: Day_previous)
  from fields_of_Day [OF this] show ?thesis
    by (simp add: formatKey_def beforeT_toISOString getFullYear_def getMonth_def getDate_def)
qed


subsection \<open>The calendar grid\<close>



















subsection \<open>The default ramp\<close>














end
